theory Spec2Isabelle
  imports Complex_Main
begin

section \<open>Values of the JavaScript runtime\<close>

text \<open>
  A number of the runtime is an IEEE double. Only its truthiness is ever inspected by the
  code modelled here, so a double is kept as its real value, with the three values that are
  no real number as constructors of their own. Both zeros are \<open>Finite 0\<close>.
\<close>

datatype jsnum = NaN | PosInfinity | NegInfinity | Finite real

text \<open>
  What \<open>JSON.parse\<close> can return, plus \<open>undefined\<close>, which a property read yields for
  a missing key. An object is the association list of its own properties; a read takes the
  first entry of a key.
\<close>

datatype jsval =
    JUndefined
  | JNull
  | JBool bool
  | JNum jsnum
  | JStr string
  | JArr "jsval list"
  | JObj "(string \<times> jsval) list"

text \<open>What a \<open>catch\<close> clause receives: an \<open>Error\<close> with its message, or any other value.\<close>

datatype thrown = ErrorObj string | NonError

section \<open>types.ts\<close>

datatype AppState = IDLE | ANALYZING | SUCCESS | ERROR

datatype InputMode = ModeUpload | ModeRecord

text \<open>A \<open>File\<close>: its name, its MIME type and its bytes.\<close>

record audio_file =
  fname :: string
  ftype :: string
  fdata :: string

section \<open>services/geminiService.ts: the analysis client\<close>

subsection \<open>Strings and the regular expression of the platform\<close>

text \<open>
  A string is a list of 8-bit characters, so the code units above 255 are outside the model.
  \<open>isWhiteSpace\<close> holds the characters of that range which both \<open>String.prototype.trim\<close>
  and the class \<open>\s\<close> take for white space (tab, line feed, vertical tab, form feed,
  carriage return, space, no-break space); \<open>isWordChar\<close> is the class \<open>\w\<close>.
\<close>

definition isWhiteSpace :: "char \<Rightarrow> bool" where
  "isWhiteSpace c = (of_char c \<in> {9, 10, 11, 12, 13, 32, 160 :: nat})"

definition isWordChar :: "char \<Rightarrow> bool" where
  "isWordChar c =
     (let n = (of_char c :: nat)
      in (48 \<le> n \<and> n \<le> 57) \<or> (65 \<le> n \<and> n \<le> 90) \<or> (97 \<le> n \<and> n \<le> 122) \<or> n = 95)"

definition trim :: "string \<Rightarrow> string" where
  "trim s = rev (dropWhile isWhiteSpace (rev (dropWhile isWhiteSpace s)))"

datatype cclass = Word | Space | AnyChar | Exactly char

fun in_class :: "cclass \<Rightarrow> char \<Rightarrow> bool" where
  "in_class Word c = isWordChar c"
| "in_class Space c = isWhiteSpace c"
| "in_class AnyChar c = True"
| "in_class (Exactly d) c = (c = d)"

text \<open>
  The fragment of regular expressions that \<open>fenceRegex\<close> is written in: a sequence of
  literals and of one-character classes under \<open>*\<close> (greedy), \<open>*?\<close> (lazy) or \<open>?\<close>
  (greedy), matched against the whole string (\<open>^\<close> ... \<open>$\<close> without the \<open>m\<close> flag).
\<close>

datatype item = Lit string | Greedy cclass | Lazy cclass | Opt cclass

text \<open>
  The backtracking matcher of the platform on that fragment, with its priorities: a greedy
  item tries the longer alternative first, a lazy one the shorter. The result is the text
  each item consumed, in the order of the items.
\<close>

fun matchItems :: "item list \<Rightarrow> string \<Rightarrow> string list option" where
  "matchItems [] s = (if s = [] then Some [] else None)"
| "matchItems (Lit l # r) s =
     (if take (length l) s = l
      then map_option (Cons l) (matchItems r (drop (length l) s))
      else None)"
| "matchItems (Greedy c # r) [] = map_option (Cons []) (matchItems r [])"
| "matchItems (Greedy c # r) (x # xs) =
     (if in_class c x
      then (case matchItems (Greedy c # r) xs of
              Some (p # ps) \<Rightarrow> Some ((x # p) # ps)
            | Some [] \<Rightarrow> None
            | None \<Rightarrow> map_option (Cons []) (matchItems r (x # xs)))
      else map_option (Cons []) (matchItems r (x # xs)))"
| "matchItems (Lazy c # r) [] = map_option (Cons []) (matchItems r [])"
| "matchItems (Lazy c # r) (x # xs) =
     (case matchItems r (x # xs) of
        Some ps \<Rightarrow> Some ([] # ps)
      | None \<Rightarrow>
          (if in_class c x
           then (case matchItems (Lazy c # r) xs of
                   Some (p # ps) \<Rightarrow> Some ((x # p) # ps)
                 | Some [] \<Rightarrow> None
                 | None \<Rightarrow> None)
           else None))"
| "matchItems (Opt c # r) [] = map_option (Cons []) (matchItems r [])"
| "matchItems (Opt c # r) (x # xs) =
     (if in_class c x
      then (case matchItems r xs of
              Some ps \<Rightarrow> Some ([x] # ps)
            | None \<Rightarrow> map_option (Cons []) (matchItems r (x # xs)))
      else map_option (Cons []) (matchItems r (x # xs)))"

definition newline :: char where
  "newline = CHR 0x0A"

text \<open>
  \<^verbatim>\<open>/^```(\w*)?\s*\n?(.*?)\n?\s*```$/s\<close>. With the \<open>s\<close> flag the dot takes every
  character. The optional group \<open>(\w*)?\<close> consumes what \<open>\w*\<close> consumes, in the same
  order of preference (its capture is never read), so it stands here as \<open>Greedy Word\<close>.
  The second capture is the text of the lazy item, the fifth of the eight.
\<close>

definition fenceRegex :: "item list" where
  "fenceRegex =
     [Lit ''```'', Greedy Word, Greedy Space, Opt (Exactly newline),
      Lazy AnyChar, Opt (Exactly newline), Greedy Space, Lit ''```'']"

text \<open>\<open>jsonStr.match(fenceRegex)\<close>, reduced to its second capture: \<open>None\<close> is \<open>null\<close>.\<close>

definition match_fence :: "string \<Rightarrow> string option" where
  "match_fence jsonStr =
     (case matchItems fenceRegex jsonStr of
        Some [m0, g1, w1, n1, g2, n2, w2, m1] \<Rightarrow> Some g2
      | _ \<Rightarrow> None)"

text \<open>Lines 86 to 93: the text handed to \<open>JSON.parse\<close>.\<close>

definition sanitize :: "string \<Rightarrow> string" where
  "sanitize text =
     (let jsonStr = trim text
      in case match_fence jsonStr of
           Some g2 \<Rightarrow> if g2 \<noteq> [] then trim g2 else jsonStr
         | None \<Rightarrow> jsonStr)"

subsection \<open>Reading and validating the parsed value\<close>

fun truthy :: "jsval \<Rightarrow> bool" where
  "truthy JUndefined = False"
| "truthy JNull = False"
| "truthy (JBool b) = b"
| "truthy (JNum n) = (n \<noteq> NaN \<and> n \<noteq> Finite 0)"
| "truthy (JStr s) = (s \<noteq> [])"
| "truthy (JArr xs) = True"
| "truthy (JObj ps) = True"

fun isArray :: "jsval \<Rightarrow> bool" where
  "isArray (JArr xs) = True"
| "isArray v = False"

definition null_read_message :: "string \<Rightarrow> string \<Rightarrow> string" where
  "null_read_message what k =
     ''Cannot read properties of '' @ what @ '' (reading '' @ [CHR 0x27] @ k @ [CHR 0x27] @ '')''"

text \<open>
  The read \<open>v.k\<close> for the four keys the validation reads, none of which a prototype
  defines: a \<open>TypeError\<close> on \<open>null\<close> and \<open>undefined\<close> (with the message of V8), the own
  property of an object, \<open>undefined\<close> on everything else.
\<close>

fun getProp :: "jsval \<Rightarrow> string \<Rightarrow> thrown + jsval" where
  "getProp JUndefined k = Inl (ErrorObj (null_read_message ''undefined'' k))"
| "getProp JNull k = Inl (ErrorObj (null_read_message ''null'' k))"
| "getProp (JObj ps) k = Inr (case map_of ps k of Some v \<Rightarrow> v | None \<Rightarrow> JUndefined)"
| "getProp v k = Inr JUndefined"

text \<open>
  The condition of the \<open>if\<close> of line 98, read left to right with the short circuit of
  \<open>||\<close>: \<open>Inr True\<close> when the validation rejects, \<open>Inl\<close> when a read throws.
\<close>

definition validation_rejects :: "jsval \<Rightarrow> thrown + bool" where
  "validation_rejects parsedData =
     (case getProp parsedData ''transcript'' of
        Inl e \<Rightarrow> Inl e
      | Inr transcript \<Rightarrow>
          if \<not> truthy transcript then Inr True
          else (case getProp parsedData ''summary'' of
                  Inl e \<Rightarrow> Inl e
                | Inr summary \<Rightarrow>
                    if \<not> truthy summary then Inr True
                    else (case getProp parsedData ''grammarAnalysis'' of
                            Inl e \<Rightarrow> Inl e
                          | Inr grammarAnalysis \<Rightarrow>
                              if \<not> isArray grammarAnalysis then Inr True
                              else (case getProp parsedData ''sentiment'' of
                                      Inl e \<Rightarrow> Inl e
                                    | Inr sentiment \<Rightarrow> Inr (\<not> truthy sentiment)))))"

definition malformed_message :: string where
  "malformed_message = ''API returned incomplete or malformed JSON data.''"

text \<open>
  The \<open>try\<close> block from the response on. \<open>JSON_parse\<close> is the parser of the platform, which
  returns a value or throws; \<open>response\<close> is what \<open>generateContent\<close> gave: the text of
  the response, or what it threw.
\<close>

definition try_block :: "(string \<Rightarrow> thrown + jsval) \<Rightarrow> thrown + string \<Rightarrow> thrown + jsval" where
  "try_block JSON_parse response =
     (case response of
        Inl e \<Rightarrow> Inl e
      | Inr text \<Rightarrow>
          (case JSON_parse (sanitize text) of
             Inl e \<Rightarrow> Inl e
           | Inr parsedData \<Rightarrow>
               (case validation_rejects parsedData of
                  Inl e \<Rightarrow> Inl e
                | Inr True \<Rightarrow> Inl (ErrorObj malformed_message)
                | Inr False \<Rightarrow> Inr parsedData)))"

text \<open>The \<open>catch\<close> block: every failure leaves as one \<open>Error\<close> with a message.\<close>

fun catch_block :: "thrown \<Rightarrow> thrown" where
  "catch_block (ErrorObj m) =
     ErrorObj (''Gemini API Error: '' @ m
               @ ''. Please check your API key and network connection.'')"
| "catch_block NonError =
     ErrorObj ''An unknown error occurred while communicating with the Gemini API.''"

text \<open>
  \<open>getSpeechAnalysis\<close> from the response on: \<open>Inr\<close> is the value the promise resolves
  with, \<open>Inl\<close> the value it rejects with.
\<close>

definition getSpeechAnalysis ::
  "(string \<Rightarrow> thrown + jsval) \<Rightarrow> thrown + string \<Rightarrow> thrown + jsval" where
  "getSpeechAnalysis JSON_parse response =
     (case try_block JSON_parse response of
        Inl e \<Rightarrow> Inl (catch_block e)
      | Inr parsedData \<Rightarrow> Inr parsedData)"

text \<open>The response text of the claim on fences: the text between a tagged pair of fences.\<close>

definition fenced :: "string \<Rightarrow> string" where
  "fenced t = ''```json'' @ [newline] @ t @ [newline] @ ''```''"

subsection \<open>Notions the properties are stated with\<close>

text \<open>The text an item may consume.\<close>

fun conforms :: "item \<Rightarrow> string \<Rightarrow> bool" where
  "conforms (Lit l) p = (p = l)"
| "conforms (Greedy c) p = list_all (in_class c) p"
| "conforms (Lazy c) p = list_all (in_class c) p"
| "conforms (Opt c) p = (case p of [] \<Rightarrow> True | [x] \<Rightarrow> in_class c x | _ \<Rightarrow> False)"

text \<open>
  A text that, once the white space around it is dropped, runs from an opening brace to a
  closing brace. Every JSON text of an object is one.
\<close>

definition object_text :: "string \<Rightarrow> bool" where
  "object_text t =
     (case trim t of [] \<Rightarrow> False | c # cs \<Rightarrow> c = CHR ''{'' \<and> last (c # cs) = CHR ''}'')"

text \<open>The own property \<open>k\<close> of a value, \<open>undefined\<close> when there is none.\<close>

definition field :: "jsval \<Rightarrow> string \<Rightarrow> jsval" where
  "field v k =
     (case v of
        JObj ps \<Rightarrow> (case map_of ps k of Some x \<Rightarrow> x | None \<Rightarrow> JUndefined)
      | _ \<Rightarrow> JUndefined)"

text \<open>
  The checks in the words of the specification: a transcript and a summary that are there
  and are not the empty string, a \<open>grammarAnalysis\<close> that is an array, a sentiment that is
  there.
\<close>

definition stated_checks :: "jsval \<Rightarrow> bool" where
  "stated_checks v =
     (field v ''transcript'' \<noteq> JUndefined \<and> field v ''transcript'' \<noteq> JStr []
      \<and> field v ''summary'' \<noteq> JUndefined \<and> field v ''summary'' \<noteq> JStr []
      \<and> isArray (field v ''grammarAnalysis'')
      \<and> field v ''sentiment'' \<noteq> JUndefined)"

text \<open>The interfaces \<open>GrammarIssue\<close> and \<open>Sentiment\<close> of \<open>types.ts\<close>, on values.\<close>

fun is_string :: "jsval \<Rightarrow> bool" where
  "is_string (JStr s) = True"
| "is_string v = False"

definition is_GrammarIssue :: "jsval \<Rightarrow> bool" where
  "is_GrammarIssue v =
     (is_string (field v ''original'') \<and> is_string (field v ''issue'')
      \<and> is_string (field v ''suggestion'') \<and> is_string (field v ''tip''))"

definition is_Sentiment :: "jsval \<Rightarrow> bool" where
  "is_Sentiment v =
     (field v ''label'' \<in> {JStr ''Positive'', JStr ''Negative'', JStr ''Neutral'', JStr ''Mixed''}
      \<and> is_string (field v ''explanation''))"

section \<open>App.tsx: the application state controller\<close>

text \<open>The six \<open>useState\<close> cells of \<open>App\<close>. A timestamp of \<open>performance.now()\<close> is a real.\<close>

record controller =
  file' :: "audio_file option"
  analysis :: "jsval option"
  appState :: AppState
  error :: "string option"
  inputMode :: InputMode
  analysisTime :: "real option"

definition initial_controller :: controller where
  "initial_controller =
     \<lparr>file' = None, analysis = None, appState = IDLE, error = None,
      inputMode = ModeUpload, analysisTime = None\<rparr>"

definition handleFileChange :: "audio_file option \<Rightarrow> controller \<Rightarrow> controller" where
  "handleFileChange selectedFile c =
     (let c' = c\<lparr>file' := selectedFile, analysis := None, error := None, analysisTime := None\<rparr>
      in if selectedFile \<noteq> None then c'\<lparr>appState := IDLE\<rparr> else c')"

definition no_file_message :: string where
  "no_file_message = ''Please select or record a file first.''"

text \<open>
  \<open>handleAnalyze\<close> is asynchronous. Its part up to the \<open>await\<close> returns the new state and
  the file handed to \<open>getSpeechAnalysis\<close>, or \<open>None\<close> when no call is made.
\<close>

definition handleAnalyze_begin :: "controller \<Rightarrow> controller \<times> audio_file option" where
  "handleAnalyze_begin c =
     (case file' c of
        None \<Rightarrow> (c\<lparr>error := Some no_file_message\<rparr>, None)
      | Some f \<Rightarrow>
          (c\<lparr>appState := ANALYZING, error := None, analysis := None, analysisTime := None\<rparr>,
           Some f))"

definition unknown_error_message :: string where
  "unknown_error_message =
     ''An unknown error occurred during analysis. Check the console for details.''"

text \<open>
  The part after the \<open>await\<close>, run when the promise of \<open>getSpeechAnalysis\<close> settles:
  \<open>startTime\<close> is the value the closure captured, \<open>endTime\<close> the clock when the
  promise resolved. The setters of one continuation are applied as one update.
\<close>

definition handleAnalyze_resume ::
  "real \<Rightarrow> thrown + jsval \<Rightarrow> real \<Rightarrow> controller \<Rightarrow> controller" where
  "handleAnalyze_resume startTime outcome endTime c =
     (case outcome of
        Inr result \<Rightarrow>
          c\<lparr>analysisTime := Some (endTime - startTime), analysis := Some result,
            appState := SUCCESS\<rparr>
      | Inl e \<Rightarrow>
          (let errorMessage = (case e of ErrorObj m \<Rightarrow> m | NonError \<Rightarrow> unknown_error_message)
           in c\<lparr>error := Some (''Analysis Failed: '' @ errorMessage), appState := ERROR\<rparr>))"

definition handleReset :: "controller \<Rightarrow> controller" where
  "handleReset c =
     c\<lparr>file' := None, analysis := None, error := None, analysisTime := None, appState := IDLE\<rparr>"

text \<open>The \<open>onClick\<close> of the two mode buttons.\<close>

definition modeSwitch :: "InputMode \<Rightarrow> controller \<Rightarrow> controller" where
  "modeSwitch m c = (handleReset c)\<lparr>inputMode := m\<rparr>"

subsection \<open>The controller with its calls in flight\<close>

text \<open>
  The controller together with the start times captured by the continuations of
  \<open>handleAnalyze\<close> that still wait for their promise. Nothing in the code cancels a call,
  so any of them may settle at any later moment.
\<close>

record system =
  ctrl :: controller
  pending :: "real list"

definition initial_system :: system where
  "initial_system = \<lparr>ctrl = initial_controller, pending = []\<rparr>"

datatype event =
    FileChange "audio_file option"
  | Analyze real
  | Settle nat "thrown + jsval" real
  | Reset
  | ModeSwitch InputMode

text \<open>One event of the event loop; \<open>None\<close> when the event cannot happen in the state.\<close>

fun step :: "event \<Rightarrow> system \<Rightarrow> system option" where
  "step (FileChange sel) s = Some (s\<lparr>ctrl := handleFileChange sel (ctrl s)\<rparr>)"
| "step (Analyze now) s =
     (case handleAnalyze_begin (ctrl s) of
        (c', None) \<Rightarrow> Some (s\<lparr>ctrl := c'\<rparr>)
      | (c', Some f) \<Rightarrow> Some \<lparr>ctrl = c', pending = pending s @ [now]\<rparr>)"
| "step (Settle i outcome now) s =
     (if i < length (pending s)
      then Some \<lparr>ctrl = handleAnalyze_resume (pending s ! i) outcome now (ctrl s),
                 pending = take i (pending s) @ drop (Suc i) (pending s)\<rparr>
      else None)"
| "step Reset s = Some (s\<lparr>ctrl := handleReset (ctrl s)\<rparr>)"
| "step (ModeSwitch m) s = Some (s\<lparr>ctrl := modeSwitch m (ctrl s)\<rparr>)"

text \<open>
  A run of events, each admitted by \<open>ok\<close> in the state it meets.
\<close>

fun run :: "(system \<Rightarrow> event \<Rightarrow> bool) \<Rightarrow> event list \<Rightarrow> system \<Rightarrow> system option" where
  "run ok [] s = Some s"
| "run ok (e # es) s =
     (if ok s e then (case step e s of Some s' \<Rightarrow> run ok es s' | None \<Rightarrow> None) else None)"

definition any_event :: "system \<Rightarrow> event \<Rightarrow> bool" where
  "any_event s e = True"

text \<open>Runs in which an analysis is requested only when no earlier call is still in flight.\<close>

definition one_call_at_a_time :: "system \<Rightarrow> event \<Rightarrow> bool" where
  "one_call_at_a_time s e =
     (case e of Analyze now \<Rightarrow> file' (ctrl s) = None \<or> pending s = [] | _ \<Rightarrow> True)"

text \<open>
  What the view of \<open>AudioUploader\<close> can send to the controller: \<open>onFileChange\<close> is called
  with a file at each of its three call sites, never with null, and the button of
  \<open>onAnalyze\<close> is disabled when there is no file and while \<open>isLoading\<close> (it is disabled
  during a recording as well, which only takes runs away). Reset, the mode buttons and the
  settling of a call are always possible.
\<close>

definition view_admits :: "system \<Rightarrow> event \<Rightarrow> bool" where
  "view_admits s e =
     (case e of
        FileChange sel \<Rightarrow> sel \<noteq> None
      | Analyze now \<Rightarrow> file' (ctrl s) \<noteq> None \<and> appState (ctrl s) \<noteq> ANALYZING
      | _ \<Rightarrow> True)"

section \<open>components/AudioUploader.tsx: the audio capture adapter\<close>

text \<open>A \<open>MediaStream\<close> is the list of its tracks; a \<open>MediaRecorder\<close> its negotiated type.\<close>

record media_stream =
  tracks :: "nat list"

record media_recorder =
  mimeType :: string

text \<open>
  The four refs and the three state cells of \<open>AudioUploader\<close>, together with the part of
  the platform they own: the tracks that are live and the interval timers that are running.
\<close>

record uploader =
  mediaRecorderRef :: "media_recorder option"
  streamRef :: "media_stream option"
  audioChunksRef :: "string list"
  recordingIntervalRef :: "nat option"
  isRecording :: bool
  recordingSeconds :: nat
  micError :: "string option"
  liveTracks :: "nat set"
  activeTimers :: "nat set"

definition initial_uploader :: uploader where
  "initial_uploader =
     \<lparr>mediaRecorderRef = None, streamRef = None, audioChunksRef = [],
      recordingIntervalRef = None, isRecording = False, recordingSeconds = 0,
      micError = None, liveTracks = {}, activeTimers = {}\<rparr>"

text \<open>
  \<open>if (recordingIntervalRef.current)\<close> tests the handle for truthiness, so a handle 0 is
  neither cleared nor forgotten.
\<close>

definition cleanupRecording :: "uploader \<Rightarrow> uploader" where
  "cleanupRecording u =
     (let u1 = (case recordingIntervalRef u of
                  Some i \<Rightarrow>
                    if i \<noteq> 0
                    then u\<lparr>activeTimers := activeTimers u - {i}, recordingIntervalRef := None\<rparr>
                    else u
                | None \<Rightarrow> u);
          u2 = (case streamRef u1 of
                  Some st \<Rightarrow>
                    u1\<lparr>liveTracks := liveTracks u1 - set (tracks st), streamRef := None\<rparr>
                | None \<Rightarrow> u1)
      in u2\<lparr>mediaRecorderRef := None, audioChunksRef := []\<rparr>)"

text \<open>
  What the platform does during one call of \<open>handleStartRecording\<close>: no
  \<open>getUserMedia\<close> at all, a rejected request, a stream whose \<open>MediaRecorder\<close> cannot be
  built, a recorder whose \<open>start\<close> throws, or a running recorder and the handle of the
  new interval timer. A stream that \<open>getUserMedia\<close> hands over has its tracks live.
\<close>

datatype start_outcome =
    Unsupported
  | AccessDenied
  | RecorderFails media_stream
  | StartFails media_stream media_recorder
  | Started media_stream media_recorder nat

definition unsupported_message :: string where
  "unsupported_message = ''Audio recording is not supported by your browser.''"

definition mic_access_message :: string where
  "mic_access_message = ''Could not access microphone. Please check your browser permissions.''"

text \<open>
  \<open>handleStartRecording\<close> is asynchronous. Up to the test for \<open>getUserMedia\<close> it only
  clears the microphone error.
\<close>

definition handleStartRecording_begin :: "uploader \<Rightarrow> uploader" where
  "handleStartRecording_begin u = u\<lparr>micError := None\<rparr>"

text \<open>
  The rest of the handler: run at once when \<open>getUserMedia\<close> is missing, and otherwise
  when the promise of \<open>getUserMedia\<close> settles, on the state the component has by then.
\<close>

definition handleStartRecording_resume :: "start_outcome \<Rightarrow> uploader \<Rightarrow> uploader" where
  "handleStartRecording_resume env u =
     (case env of
        Unsupported \<Rightarrow> u\<lparr>micError := Some unsupported_message\<rparr>
      | AccessDenied \<Rightarrow> cleanupRecording (u\<lparr>micError := Some mic_access_message\<rparr>)
      | RecorderFails st \<Rightarrow>
          cleanupRecording
            (u\<lparr>streamRef := Some st, liveTracks := liveTracks u \<union> set (tracks st),
               micError := Some mic_access_message\<rparr>)
      | StartFails st r \<Rightarrow>
          cleanupRecording
            (u\<lparr>streamRef := Some st, liveTracks := liveTracks u \<union> set (tracks st),
               mediaRecorderRef := Some r, audioChunksRef := [],
               micError := Some mic_access_message\<rparr>)
      | Started st r timer \<Rightarrow>
          u\<lparr>streamRef := Some st, liveTracks := liveTracks u \<union> set (tracks st),
            mediaRecorderRef := Some r, audioChunksRef := [],
            isRecording := True, recordingSeconds := 0,
            recordingIntervalRef := Some timer,
            activeTimers := insert timer (activeTimers u)\<rparr>)"

text \<open>One call of the handler with nothing happening while it waits.\<close>

definition handleStartRecording :: "start_outcome \<Rightarrow> uploader \<Rightarrow> uploader" where
  "handleStartRecording env u = handleStartRecording_resume env (handleStartRecording_begin u)"

definition ondataavailable :: "string \<Rightarrow> uploader \<Rightarrow> uploader" where
  "ondataavailable data u = u\<lparr>audioChunksRef := audioChunksRef u @ [data]\<rparr>"

text \<open>
  The \<open>onstop\<close> handler: the file it hands to \<open>onFileChange\<close> and the state it leaves.
  \<open>stamp\<close> is \<open>new Date().toISOString()\<close>; \<open>ftype\<close> is the type option given to the
  \<open>File\<close> constructor.
\<close>

definition onstop :: "string \<Rightarrow> uploader \<Rightarrow> audio_file \<times> uploader" where
  "onstop stamp u =
     (let mimeType =
            (case mediaRecorderRef u of
               Some r \<Rightarrow> if mimeType r \<noteq> [] then mimeType r else ''audio/webm''
             | None \<Rightarrow> ''audio/webm'');
          audioFile = \<lparr>fname = ''recording-'' @ stamp @ ''.webm'', ftype = mimeType,
                       fdata = concat (audioChunksRef u)\<rparr>
      in (audioFile, cleanupRecording u))"

text \<open>\<open>handleStopRecording\<close>; the recorder it stops fires \<open>onstop\<close> afterwards.\<close>

definition handleStopRecording :: "uploader \<Rightarrow> uploader" where
  "handleStopRecording u =
     (if mediaRecorderRef u \<noteq> None then u\<lparr>isRecording := False\<rparr> else u)"

text \<open>
  The ways a recording session ends: the stop button followed by the \<open>onstop\<close> event, a
  failure inside \<open>handleStartRecording\<close>, and the cleanup of the effect when the component
  unmounts.
\<close>

datatype exit_path =
    NormalStop string
  | StartFailure start_outcome
  | Teardown

fun exit_state :: "exit_path \<Rightarrow> uploader \<Rightarrow> uploader" where
  "exit_state (NormalStop stamp) u = snd (onstop stamp (handleStopRecording u))"
| "exit_state (StartFailure env) u = handleStartRecording env u"
| "exit_state Teardown u = cleanupRecording u"

text \<open>The stream a session holds when it leaves by the given path.\<close>

fun held_stream :: "exit_path \<Rightarrow> uploader \<Rightarrow> media_stream option" where
  "held_stream (StartFailure (RecorderFails st)) u = Some st"
| "held_stream (StartFailure (StartFails st r)) u = Some st"
| "held_stream p u = streamRef u"

fun is_failure :: "start_outcome \<Rightarrow> bool" where
  "is_failure AccessDenied = True"
| "is_failure (RecorderFails st) = True"
| "is_failure (StartFails st r) = True"
| "is_failure env = False"

subsection \<open>The recorder view\<close>

text \<open>
  The buttons \<open>renderRecorder\<close> puts on the page; the flag of the start button is its
  \<open>disabled\<close> attribute.
\<close>

datatype control = StartButton bool | StopButton

definition renderRecorder :: "bool \<Rightarrow> uploader \<Rightarrow> control list" where
  "renderRecorder isLoading u =
     (if isRecording u then [StopButton] else [StartButton isLoading])"

subsection \<open>The recorder with its requests in flight\<close>

text \<open>
  The component together with the number of \<open>getUserMedia\<close> promises that have not
  settled yet. Each of them belongs to one call of \<open>handleStartRecording\<close> that waits at
  its \<open>await\<close>.
\<close>

record recorder_system =
  up :: uploader
  requests :: nat

definition initial_recorder_system :: recorder_system where
  "initial_recorder_system = \<lparr>up = initial_uploader, requests = 0\<rparr>"

text \<open>
  A click on the start button (with or without \<open>getUserMedia\<close> on the platform), the
  settling of a request, a click on the stop button, the \<open>stop\<close> and \<open>dataavailable\<close>
  events of the recorder, and the unmount of the component.
\<close>

datatype recorder_event =
    StartClick bool
  | MediaSettles start_outcome
  | StopClick
  | StopEvent string
  | DataAvailable string
  | Unmount

fun recorder_step :: "recorder_event \<Rightarrow> recorder_system \<Rightarrow> recorder_system option" where
  "recorder_step (StartClick supported) s =
     (if supported
      then Some \<lparr>up = handleStartRecording_begin (up s), requests = Suc (requests s)\<rparr>
      else Some (s\<lparr>up := handleStartRecording Unsupported (up s)\<rparr>))"
| "recorder_step (MediaSettles env) s =
     (if 0 < requests s \<and> env \<noteq> Unsupported
      then Some \<lparr>up = handleStartRecording_resume env (up s), requests = requests s - 1\<rparr>
      else None)"
| "recorder_step StopClick s = Some (s\<lparr>up := handleStopRecording (up s)\<rparr>)"
| "recorder_step (StopEvent stamp) s = Some (s\<lparr>up := snd (onstop stamp (up s))\<rparr>)"
| "recorder_step (DataAvailable data) s = Some (s\<lparr>up := ondataavailable data (up s)\<rparr>)"
| "recorder_step Unmount s = Some (s\<lparr>up := cleanupRecording (up s)\<rparr>)"

text \<open>
  What the recorder view lets through: a click reaches its handler only when the button is
  on the page and, for the start button, not disabled.
\<close>

definition recorder_view_admits :: "bool \<Rightarrow> recorder_system \<Rightarrow> recorder_event \<Rightarrow> bool" where
  "recorder_view_admits isLoading s e =
     (case e of
        StartClick supported \<Rightarrow> StartButton False \<in> set (renderRecorder isLoading (up s))
      | StopClick \<Rightarrow> StopButton \<in> set (renderRecorder isLoading (up s))
      | _ \<Rightarrow> True)"

fun recorder_run ::
  "(recorder_system \<Rightarrow> recorder_event \<Rightarrow> bool) \<Rightarrow> recorder_event list \<Rightarrow> recorder_system
     \<Rightarrow> recorder_system option" where
  "recorder_run ok [] s = Some s"
| "recorder_run ok (e # es) s =
     (if ok s e
      then (case recorder_step e s of Some s' \<Rightarrow> recorder_run ok es s' | None \<Rightarrow> None)
      else None)"

section \<open>Invariants and sample inputs\<close>

text \<open>
  What holds of the controller as long as calls do not overlap: at most one call is in
  flight, a result is there only in Success with no call left, and a message other than the
  one of the missing file only in Error with no call left.
\<close>

definition serial_inv :: "system \<Rightarrow> bool" where
  "serial_inv s =
     (length (pending s) \<le> 1
      \<and> (analysis (ctrl s) \<noteq> None \<longrightarrow> appState (ctrl s) = SUCCESS \<and> pending s = [])
      \<and> (error (ctrl s) \<noteq> None \<and> error (ctrl s) \<noteq> Some no_file_message
           \<longrightarrow> appState (ctrl s) = ERROR \<and> pending s = []))"

text \<open>In Analyzing there is no result, no message and no duration.\<close>

definition analyzing_inv :: "system \<Rightarrow> bool" where
  "analyzing_inv s =
     (appState (ctrl s) = ANALYZING
      \<longrightarrow> analysis (ctrl s) = None \<and> error (ctrl s) = None \<and> analysisTime (ctrl s) = None)"

definition sample_file :: audio_file where
  "sample_file = \<lparr>fname = ''talk.wav'', ftype = ''audio/wav'', fdata = ''RIFF''\<rparr>"

definition other_file :: audio_file where
  "other_file = \<lparr>fname = ''memo.mp3'', ftype = ''audio/mpeg'', fdata = ''ID3''\<rparr>"

definition sample_result :: jsval where
  "sample_result =
     JObj [(''transcript'', JStr ''so um hello''), (''summary'', JStr ''A greeting.''),
           (''grammarAnalysis'', JArr []),
           (''sentiment'', JObj [(''label'', JStr ''Neutral''), (''explanation'', JStr ''Flat.'')])]"

text \<open>
  Response texts and the values \<open>JSON.parse\<close> gives for them. \<open>sample_parse\<close> agrees
  with \<open>JSON.parse\<close> on these texts and rejects every other text; it stands for the
  parser of the platform in the examples only.
\<close>

definition sample_text :: string where
  "sample_text = ''{\"transcript\":\"so um hello\",\"summary\":\"A greeting.\",\"grammarAnalysis\":[],\"sentiment\":{\"label\":\"Neutral\",\"explanation\":\"Flat.\"}}''"

definition padded_text :: string where
  "padded_text = [newline] @ ''  '' @ sample_text @ '' '' @ [newline]"

definition loose_text :: string where
  "loose_text = ''{\"transcript\":\"hi\",\"summary\":\"s\",\"grammarAnalysis\":[{\"note\":\"x\"}],\"sentiment\":{\"label\":\"Furious\"}}''"

definition loose_fields :: "(string \<times> jsval) list" where
  "loose_fields =
     [(''transcript'', JStr ''hi''), (''summary'', JStr ''s''),
      (''grammarAnalysis'', JArr [JObj [(''note'', JStr ''x'')]]),
      (''sentiment'', JObj [(''label'', JStr ''Furious'')])]"

definition no_sentiment_text :: string where
  "no_sentiment_text = ''{\"transcript\":\"hi\",\"summary\":\"s\",\"grammarAnalysis\":[]}''"

definition no_sentiment_result :: jsval where
  "no_sentiment_result =
     JObj [(''transcript'', JStr ''hi''), (''summary'', JStr ''s''), (''grammarAnalysis'', JArr [])]"

definition sample_parse :: "string \<Rightarrow> thrown + jsval" where
  "sample_parse s =
     (if s = sample_text then Inr sample_result
      else if s = loose_text then Inr (JObj loose_fields)
      else if s = no_sentiment_text then Inr no_sentiment_result
      else Inl (ErrorObj ''Unexpected token''))"

text \<open>A running session: one track, a recorder that negotiated Ogg, timer 3, no chunk yet.\<close>

definition recording_uploader :: uploader where
  "recording_uploader =
     handleStartRecording (Started \<lparr>tracks = [7]\<rparr> \<lparr>mimeType = ''audio/ogg''\<rparr> 3)
       initial_uploader"

section \<open>The controller\<close>

subsection \<open>Reset and mode switch\<close>

text \<open>
  C7: from every controller state, \<open>handleReset\<close> and the click on either mode button give
  the Idle state with the file, the analysis result, the error message and the duration all
  null.
\<close>

theorem reset_and_mode_switch_clear:
  "file' (handleReset c) = None \<and> analysis (handleReset c) = None
   \<and> error (handleReset c) = None \<and> analysisTime (handleReset c) = None
   \<and> appState (handleReset c) = IDLE
   \<and> file' (modeSwitch m c) = None \<and> analysis (modeSwitch m c) = None
   \<and> error (modeSwitch m c) = None \<and> analysisTime (modeSwitch m c) = None
   \<and> appState (modeSwitch m c) = IDLE \<and> inputMode (modeSwitch m c) = m"
  by (simp add: handleReset_def modeSwitch_def)

subsection \<open>Field by field\<close>

lemma handleFileChange_fields:
  "file' (handleFileChange sel c) = sel"
  "analysis (handleFileChange sel c) = None"
  "error (handleFileChange sel c) = None"
  "analysisTime (handleFileChange sel c) = None"
  "appState (handleFileChange sel c) = (if sel = None then appState c else IDLE)"
  "inputMode (handleFileChange sel c) = inputMode c"
  by (simp_all add: handleFileChange_def Let_def)

subsection \<open>Analysis without a file\<close>

text \<open>
  C1 (the code at the failing input): in the initial state, where no file is present,
  \<open>handleAnalyze\<close> makes no call and stores the message, but the workflow state stays Idle;
  it does not become Error.
\<close>

theorem analyze_without_file_stays_idle:
  "handleAnalyze_begin initial_controller
     = (initial_controller\<lparr>error := Some ''Please select or record a file first.''\<rparr>, None)
   \<and> appState (fst (handleAnalyze_begin initial_controller)) = IDLE
   \<and> step (Analyze now) initial_system
     = Some (initial_system\<lparr>ctrl := initial_controller\<lparr>error := Some no_file_message\<rparr>\<rparr>)"
  by (simp add: handleAnalyze_begin_def initial_controller_def initial_system_def
      no_file_message_def)

subsection \<open>A successful analysis\<close>

text \<open>
  C6: with a file present, from Idle as from any other state, \<open>handleAnalyze\<close> enters
  Analyzing with no result and no duration; when its call resolves, the controller enters
  Success, and the same update stores the result and the duration \<open>endTime - startTime\<close>,
  which is not negative when the clock did not run backwards. When the call fails instead,
  the controller enters Error and no duration is stored: the failing continuation leaves
  the duration of any state as it is.
\<close>

theorem successful_analysis_records_duration:
  assumes "file' (ctrl s) = Some f" and "startTime \<le> endTime"
  shows "\<exists>s1 s2.
           step (Analyze startTime) s = Some s1
         \<and> appState (ctrl s1) = ANALYZING
         \<and> analysis (ctrl s1) = None \<and> analysisTime (ctrl s1) = None
         \<and> step (Settle (length (pending s)) (Inr result) endTime) s1 = Some s2
         \<and> appState (ctrl s2) = SUCCESS
         \<and> analysis (ctrl s2) = Some result
         \<and> analysisTime (ctrl s2) = Some (endTime - startTime)
         \<and> 0 \<le> endTime - startTime
         \<and> (\<forall>e. \<exists>s3. step (Settle (length (pending s)) (Inl e) endTime) s1 = Some s3
                      \<and> appState (ctrl s3) = ERROR \<and> analysisTime (ctrl s3) = None
                      \<and> analysis (ctrl s3) = None)
         \<and> analysisTime (handleAnalyze_resume startTime' (Inl e') endTime' c) = analysisTime c"
  using assms by (simp add: handleAnalyze_begin_def handleAnalyze_resume_def Let_def)

theorem successful_analysis_records_duration_witness:
  "file' (ctrl \<lparr>ctrl = handleFileChange (Some sample_file) initial_controller, pending = []\<rparr>)
     = Some sample_file
   \<and> (100 :: real) \<le> 2600
   \<and> (\<exists>s1 s2.
         step (Analyze 100)
           \<lparr>ctrl = handleFileChange (Some sample_file) initial_controller, pending = []\<rparr> = Some s1
       \<and> appState (ctrl s1) = ANALYZING
       \<and> step (Settle 0 (Inr sample_result) 2600) s1 = Some s2
       \<and> appState (ctrl s2) = SUCCESS
       \<and> analysis (ctrl s2) = Some sample_result
       \<and> analysisTime (ctrl s2) = Some 2500)"
proof -
  let ?s = "\<lparr>ctrl = handleFileChange (Some sample_file) initial_controller, pending = []\<rparr>"
  have f: "file' (ctrl ?s) = Some sample_file"
    by (simp add: handleFileChange_fields)
  have t: "(100 :: real) \<le> 2600"
    by simp
  from successful_analysis_records_duration
         [OF f t, where result = sample_result and startTime' = 0 and endTime' = 0
            and e' = NonError and c = initial_controller]
  obtain s1 s2 where "step (Analyze 100) ?s = Some s1" "appState (ctrl s1) = ANALYZING"
    "step (Settle 0 (Inr sample_result) 2600) s1 = Some s2" "appState (ctrl s2) = SUCCESS"
    "analysis (ctrl s2) = Some sample_result" "analysisTime (ctrl s2) = Some (2600 - 100)"
    by auto
  with f t show ?thesis
    by auto
qed

subsection \<open>Result and message against the workflow state\<close>

lemma serial_inv_initial: "serial_inv initial_system"
  by (simp add: serial_inv_def initial_system_def initial_controller_def)

lemma serial_inv_step:
  assumes "serial_inv s" and "one_call_at_a_time s e" and "step e s = Some s'"
  shows "serial_inv s'"
proof (cases e)
  case (FileChange sel)
  with assms show ?thesis
    by (auto simp: serial_inv_def handleFileChange_fields)
next
  case (Analyze now)
  with assms show ?thesis
    by (auto simp: serial_inv_def one_call_at_a_time_def handleAnalyze_begin_def
             split: option.splits)
next
  case (Settle i outcome now)
  with assms have i: "i < length (pending s)"
    by (auto split: if_splits)
  with assms(1) have p: "length (pending s) = 1" "i = 0"
    by (auto simp: serial_inv_def)
  then obtain t where t: "pending s = [t]"
    by (cases "pending s") auto
  from assms(1) t have clean: "analysis (ctrl s) = None"
    "error (ctrl s) = None \<or> error (ctrl s) = Some no_file_message"
    by (auto simp: serial_inv_def)
  from assms(3) Settle t p
  have s': "s' = \<lparr>ctrl = handleAnalyze_resume t outcome now (ctrl s), pending = []\<rparr>"
    by simp
  show ?thesis
  proof (cases outcome)
    case (Inl e)
    with s' clean show ?thesis
      by (auto simp: serial_inv_def handleAnalyze_resume_def Let_def)
  next
    case (Inr r)
    with s' clean show ?thesis
      by (auto simp: serial_inv_def handleAnalyze_resume_def)
  qed
next
  case Reset
  with assms show ?thesis
    by (auto simp: serial_inv_def handleReset_def)
next
  case (ModeSwitch m)
  with assms show ?thesis
    by (auto simp: serial_inv_def handleReset_def modeSwitch_def)
qed

lemma serial_inv_run:
  "serial_inv s \<Longrightarrow> run one_call_at_a_time es s = Some s' \<Longrightarrow> serial_inv s'"
proof (induction es arbitrary: s)
  case Nil
  then show ?case by simp
next
  case (Cons e es)
  from Cons.prems(2) obtain s1 where ok: "one_call_at_a_time s e"
    and st: "step e s = Some s1" and rest: "run one_call_at_a_time es s1 = Some s'"
    by (auto split: if_splits option.splits)
  from serial_inv_step [OF Cons.prems(1) ok st] have "serial_inv s1" .
  from Cons.IH [OF this rest] show ?case .
qed

text \<open>
  C2 as stated fails. A first call is in flight when the input is reset; a second file is
  chosen and a second call starts. The first call resolves, the second fails: the state is
  Error and the result of the first call is still there. When the two settle the other way
  round, the state is Success and the message of the failure is still there.
\<close>

theorem stale_settlement_counterexample:
  "run any_event
     [FileChange (Some sample_file), Analyze 0, Reset, FileChange (Some other_file), Analyze 1,
      Settle 0 (Inr sample_result) 2, Settle 0 (Inl (ErrorObj ''offline'')) 3] initial_system
   = Some \<lparr>ctrl = \<lparr>file' = Some other_file, analysis = Some sample_result, appState = ERROR,
                    error = Some ''Analysis Failed: offline'', inputMode = ModeUpload,
                    analysisTime = Some 2\<rparr>,
           pending = []\<rparr>
   \<and> run any_event
     [FileChange (Some sample_file), Analyze 0, Reset, FileChange (Some other_file), Analyze 1,
      Settle 0 (Inl (ErrorObj ''offline'')) 2, Settle 0 (Inr sample_result) 3] initial_system
   = Some \<lparr>ctrl = \<lparr>file' = Some other_file, analysis = Some sample_result, appState = SUCCESS,
                    error = Some ''Analysis Failed: offline'', inputMode = ModeUpload,
                    analysisTime = Some 2\<rparr>,
           pending = []\<rparr>"
  by (simp add: any_event_def initial_system_def initial_controller_def handleFileChange_def
      handleAnalyze_begin_def handleReset_def handleAnalyze_resume_def)

text \<open>
  C2 as amended: in every state reached by a run in which no analysis is started while an
  earlier call is still in flight, the result is non-null only in Success, and an error
  message other than the one of the missing file is non-null only in Error.
\<close>

theorem result_and_failure_only_in_their_state:
  assumes "run one_call_at_a_time es initial_system = Some s"
  shows "(analysis (ctrl s) \<noteq> None \<longrightarrow> appState (ctrl s) = SUCCESS)
       \<and> (error (ctrl s) \<noteq> None \<and> error (ctrl s) \<noteq> Some no_file_message
            \<longrightarrow> appState (ctrl s) = ERROR)"
  using serial_inv_run [OF serial_inv_initial assms] by (simp add: serial_inv_def)

theorem result_and_failure_only_in_their_state_witness:
  "run one_call_at_a_time
     [FileChange (Some sample_file), Analyze 0, Settle 0 (Inl (ErrorObj ''offline'')) 7]
     initial_system
   = Some \<lparr>ctrl = \<lparr>file' = Some sample_file, analysis = None, appState = ERROR,
                    error = Some ''Analysis Failed: offline'',
                    inputMode = ModeUpload, analysisTime = None\<rparr>,
           pending = []\<rparr>
   \<and> Some ''Analysis Failed: offline'' \<noteq> (None :: string option)
   \<and> Some ''Analysis Failed: offline'' \<noteq> Some no_file_message
   \<and> appState
        (ctrl \<lparr>ctrl = \<lparr>file' = Some sample_file, analysis = None, appState = ERROR,
                        error = Some ''Analysis Failed: offline'',
                        inputMode = ModeUpload, analysisTime = None\<rparr>,
               pending = []\<rparr>) = ERROR"
proof -
  let ?s = "\<lparr>ctrl = \<lparr>file' = Some sample_file, analysis = None, appState = ERROR,
                    error = Some ''Analysis Failed: offline'',
                    inputMode = ModeUpload, analysisTime = None\<rparr>,
           pending = []\<rparr>"
  have r: "run one_call_at_a_time
     [FileChange (Some sample_file), Analyze 0, Settle 0 (Inl (ErrorObj ''offline'')) 7]
     initial_system = Some ?s"
    by (simp add: one_call_at_a_time_def initial_system_def initial_controller_def
        handleFileChange_def handleAnalyze_begin_def handleAnalyze_resume_def)
  have m: "Some ''Analysis Failed: offline'' \<noteq> Some no_file_message"
    by (simp add: no_file_message_def)
  from result_and_failure_only_in_their_state [OF r] m
  have "appState (ctrl ?s) = ERROR"
    by simp
  with r m show ?thesis
    by simp
qed

subsection \<open>The Analyzing state\<close>

lemma analyzing_inv_initial: "analyzing_inv initial_system"
  by (simp add: analyzing_inv_def initial_system_def initial_controller_def)

lemma analyzing_inv_step:
  assumes "analyzing_inv s" and "view_admits s e" and "step e s = Some s'"
  shows "analyzing_inv s'"
proof (cases e)
  case (FileChange sel)
  with assms show ?thesis
    by (auto simp: analyzing_inv_def handleFileChange_fields)
next
  case (Analyze now)
  with assms show ?thesis
    by (auto simp: analyzing_inv_def view_admits_def handleAnalyze_begin_def
             split: option.splits)
next
  case (Settle i outcome now)
  with assms show ?thesis
    by (cases outcome)
       (auto simp: analyzing_inv_def handleAnalyze_resume_def Let_def split: if_splits)
next
  case Reset
  with assms show ?thesis
    by (auto simp: analyzing_inv_def handleReset_def)
next
  case (ModeSwitch m)
  with assms show ?thesis
    by (auto simp: analyzing_inv_def handleReset_def modeSwitch_def)
qed

lemma analyzing_inv_run:
  "analyzing_inv s \<Longrightarrow> run view_admits es s = Some s' \<Longrightarrow> analyzing_inv s'"
proof (induction es arbitrary: s)
  case Nil
  then show ?case by simp
next
  case (Cons e es)
  from Cons.prems(2) obtain s1 where ok: "view_admits s e"
    and st: "step e s = Some s1" and rest: "run view_admits es s1 = Some s'"
    by (auto split: if_splits option.splits)
  from analyzing_inv_step [OF Cons.prems(1) ok st] have "analyzing_inv s1" .
  from Cons.IH [OF this rest] show ?case .
qed

text \<open>
  C10: in every state the controller reaches by the events its view can send, when the
  workflow state is Analyzing the result, the error message and the duration are all null.
  \<open>handleAnalyze\<close>, called with a file, sets the three to null as it enters Analyzing.
\<close>

theorem analyzing_state_is_clean:
  assumes "run view_admits es initial_system = Some s" and "appState (ctrl s) = ANALYZING"
  shows "analysis (ctrl s) = None \<and> error (ctrl s) = None \<and> analysisTime (ctrl s) = None
       \<and> (file' c \<noteq> None
            \<longrightarrow> appState (fst (handleAnalyze_begin c)) = ANALYZING
              \<and> analysis (fst (handleAnalyze_begin c)) = None
              \<and> error (fst (handleAnalyze_begin c)) = None
              \<and> analysisTime (fst (handleAnalyze_begin c)) = None)"
proof -
  from analyzing_inv_run [OF analyzing_inv_initial assms(1)] assms(2)
  have "analysis (ctrl s) = None \<and> error (ctrl s) = None \<and> analysisTime (ctrl s) = None"
    by (simp add: analyzing_inv_def)
  moreover have "file' c \<noteq> None
            \<longrightarrow> appState (fst (handleAnalyze_begin c)) = ANALYZING
              \<and> analysis (fst (handleAnalyze_begin c)) = None
              \<and> error (fst (handleAnalyze_begin c)) = None
              \<and> analysisTime (fst (handleAnalyze_begin c)) = None"
    by (auto simp: handleAnalyze_begin_def)
  ultimately show ?thesis
    by blast
qed

theorem analyzing_state_is_clean_witness:
  "run view_admits
     [FileChange (Some sample_file), Analyze 0, Reset, FileChange (Some other_file), Analyze 1,
      Settle 0 (Inl (ErrorObj ''offline'')) 2, Analyze 3] initial_system
   = Some \<lparr>ctrl = \<lparr>file' = Some other_file, analysis = None, appState = ANALYZING,
                    error = None, inputMode = ModeUpload, analysisTime = None\<rparr>,
           pending = [1, 3]\<rparr>
   \<and> appState (ctrl \<lparr>ctrl = \<lparr>file' = Some other_file, analysis = None, appState = ANALYZING,
                    error = None, inputMode = ModeUpload, analysisTime = None\<rparr>,
           pending = [1, 3]\<rparr>) = ANALYZING
   \<and> file' (handleFileChange (Some sample_file) initial_controller) \<noteq> None
   \<and> error (fst (handleAnalyze_begin (handleFileChange (Some sample_file) initial_controller)))
       = None"
proof -
  let ?s = "\<lparr>ctrl = \<lparr>file' = Some other_file, analysis = None, appState = ANALYZING,
                    error = None, inputMode = ModeUpload, analysisTime = None\<rparr>,
           pending = [1, 3]\<rparr>"
  have r: "run view_admits
     [FileChange (Some sample_file), Analyze 0, Reset, FileChange (Some other_file), Analyze 1,
      Settle 0 (Inl (ErrorObj ''offline'')) 2, Analyze 3] initial_system = Some ?s"
    by (simp add: view_admits_def initial_system_def initial_controller_def
        handleFileChange_def handleAnalyze_begin_def handleReset_def handleAnalyze_resume_def)
  have a: "appState (ctrl ?s) = ANALYZING"
    by simp
  have f: "file' (handleFileChange (Some sample_file) initial_controller) \<noteq> None"
    by (simp add: handleFileChange_fields)
  from analyzing_state_is_clean
         [OF r a, of "handleFileChange (Some sample_file) initial_controller"] f
  have "error (fst (handleAnalyze_begin (handleFileChange (Some sample_file) initial_controller)))
          = None"
    by blast
  with r a f show ?thesis
    by simp
qed

section \<open>The analysis client\<close>

subsection \<open>The matcher\<close>

lemma matchItems_sound:
  "matchItems items s = Some ps \<Longrightarrow> list_all2 conforms items ps \<and> concat ps = s"
proof (induction items s arbitrary: ps rule: matchItems.induct)
  case (1 s)
  then show ?case by (simp split: if_splits)
next
  case (2 l r s)
  from "2.prems" have tk: "take (length l) s = l"
    by (simp split: if_splits)
  with "2.prems" obtain qs where qs: "matchItems r (drop (length l) s) = Some qs" "ps = l # qs"
    by auto
  from "2.IH" [OF tk qs(1)] have "list_all2 conforms r qs" "concat qs = drop (length l) s"
    by simp_all
  moreover have "l @ drop (length l) s = s"
    using tk append_take_drop_id [of "length l" s] by simp
  ultimately show ?case using qs by simp
next
  case (3 c r)
  then show ?case by auto
next
  case (4 c r x xs)
  then show ?case
    by (auto split: if_splits option.splits list.splits)
next
  case (5 c r)
  then show ?case by auto
next
  case (6 c r x xs)
  then show ?case
    by (auto split: if_splits option.splits list.splits)
next
  case (7 c r)
  then show ?case by auto
next
  case (8 c r x xs)
  then show ?case
    by (auto split: if_splits option.splits list.splits)
qed

lemma matchItems_Lit:
  "matchItems (Lit l # r) (l @ s) = map_option (Cons l) (matchItems r s)"
  by simp

lemma greedy_run:
  assumes "list_all (in_class c) x" and "y = [] \<or> \<not> in_class c (hd y)"
    and "matchItems r y = Some ps"
  shows "matchItems (Greedy c # r) (x @ y) = Some (x # ps)"
  using assms
proof (induction x)
  case Nil
  then show ?case by (cases y) auto
next
  case (Cons a x)
  then show ?case by simp
qed

lemma opt_skip:
  assumes "y = [] \<or> \<not> in_class c (hd y)"
  shows "matchItems (Opt c # r) y = map_option (Cons []) (matchItems r y)"
  using assms by (cases y) auto

lemma lazy_run:
  assumes "\<And>x1 x2. x = x1 @ x2 \<Longrightarrow> x2 \<noteq> [] \<Longrightarrow> matchItems r (x2 @ y) = None"
    and "matchItems r y = Some ps"
  shows "matchItems (Lazy AnyChar # r) (x @ y) = Some (x # ps)"
  using assms
proof (induction x)
  case Nil
  then show ?case by (cases y) auto
next
  case (Cons a x)
  have none: "matchItems r ((a # x) @ y) = None"
    using Cons.prems(1) [of "[]" "a # x"] by simp
  have "matchItems (Lazy AnyChar # r) (x @ y) = Some (x # ps)"
  proof (rule Cons.IH)
    fix x1 x2 assume "x = x1 @ x2" "x2 \<noteq> []"
    then show "matchItems r (x2 @ y) = None"
      using Cons.prems(1) [of "a # x1" x2] by simp
  qed (rule Cons.prems(2))
  with none show ?case by simp
qed


lemma trim_split:
  "\<exists>w1 w2. t = w1 @ trim t @ w2 \<and> list_all isWhiteSpace w1 \<and> list_all isWhiteSpace w2"
proof -
  let ?d = "dropWhile isWhiteSpace t"
  let ?w1 = "takeWhile isWhiteSpace t"
  let ?w2 = "rev (takeWhile isWhiteSpace (rev ?d))"
  have "rev (takeWhile isWhiteSpace (rev ?d) @ dropWhile isWhiteSpace (rev ?d)) = rev (rev ?d)"
    by (simp only: takeWhile_dropWhile_id)
  then have "rev (dropWhile isWhiteSpace (rev ?d)) @ ?w2 = ?d"
    by (simp only: rev_append rev_rev_ident)
  then have d: "?d = trim t @ ?w2"
    by (simp add: trim_def)
  have "t = ?w1 @ ?d"
    by simp
  with d have "t = ?w1 @ trim t @ ?w2"
    by simp
  moreover have "list_all isWhiteSpace ?w1"
    by (simp add: list_all_iff) (meson set_takeWhileD)
  moreover have "list_all isWhiteSpace ?w2"
    by (simp add: list_all_iff) (meson set_takeWhileD)
  ultimately show ?thesis
    by blast
qed

lemma trim_fixed:
  assumes "s \<noteq> []" and "\<not> isWhiteSpace (hd s)" and "\<not> isWhiteSpace (last s)"
  shows "trim s = s"
proof -
  from assms have "dropWhile isWhiteSpace s = s"
    by (cases s) auto
  moreover from assms have "dropWhile isWhiteSpace (rev s) = rev s"
    by (cases "rev s") (auto simp: hd_rev [symmetric])
  ultimately show ?thesis
    by (simp add: trim_def)
qed

lemma tail_matches:
  assumes "list_all isWhiteSpace w"
  shows "\<exists>p1 p2. matchItems [Opt (Exactly newline), Greedy Space, Lit ''```''] (w @ ''```'')
            = Some [p1, p2, ''```'']"
proof -
  have lit: "matchItems [Lit ''```''] ''```'' = Some [''```'']"
    by simp
  have tick: "\<not> in_class Space (hd ''```'')"
    by (simp add: isWhiteSpace_def)
  have g: "matchItems [Greedy Space, Lit ''```''] (v @ ''```'') = Some [v, ''```'']"
    if "list_all isWhiteSpace v" for v
    using greedy_run [of Space v "''```''" "[Lit ''```'']" "[''```'']"] that lit tick
    by (simp add: list_all_iff)
  show ?thesis
  proof (cases w)
    case Nil
    then show ?thesis
      by (simp add: newline_def isWhiteSpace_def)
  next
    case (Cons a v)
    with assms have v: "list_all isWhiteSpace v"
      by simp
    show ?thesis
    proof (cases "a = newline")
      case True
      with Cons g [OF v] show ?thesis by simp
    next
      case False
      with Cons g [OF assms] show ?thesis by simp
    qed
  qed
qed

lemma tail_fails:
  assumes "x \<noteq> []" and "\<not> isWhiteSpace (last x)" and "list_all isWhiteSpace w"
  shows "matchItems [Opt (Exactly newline), Greedy Space, Lit ''```''] (x @ w @ ''```'') = None"
proof (rule ccontr)
  assume "matchItems [Opt (Exactly newline), Greedy Space, Lit ''```''] (x @ w @ ''```'') \<noteq> None"
  then obtain ps where
    ps: "matchItems [Opt (Exactly newline), Greedy Space, Lit ''```''] (x @ w @ ''```'') = Some ps"
    by auto
  from matchItems_sound [OF ps]
  obtain p1 p2 where c: "ps = [p1, p2, ''```'']" "conforms (Opt (Exactly newline)) p1"
    "list_all (in_class Space) p2" "p1 @ p2 @ ''```'' = x @ w @ ''```''"
    by (auto simp: list_all2_Cons1)
  from c(3) have p2: "list_all isWhiteSpace p2"
    by (simp add: list_all_iff)
  from c(2) have "list_all isWhiteSpace p1"
    by (auto simp: newline_def isWhiteSpace_def split: list.splits)
  with p2 have ws: "list_all isWhiteSpace (p1 @ p2)"
    by simp
  from c(4) have "(p1 @ p2) @ ''```'' = (x @ w) @ ''```''"
    by simp
  then have "p1 @ p2 = x @ w"
    by (simp only: append_same_eq)
  with ws have "list_all isWhiteSpace x"
    by simp
  with assms(1,2) show False
    by (simp add: list_all_iff)
qed

lemma match_fence_fenced:
  assumes "u \<noteq> []" and "hd u = CHR ''{''" and "last u = CHR ''}''"
    and "list_all isWhiteSpace w1" and "list_all isWhiteSpace w2"
  shows "match_fence (fenced (w1 @ u @ w2)) = Some u"
proof -
  let ?tail = "[Opt (Exactly newline), Greedy Space, Lit ''```'']"
  let ?w = "w2 @ [newline]"
  have w: "list_all isWhiteSpace ?w"
    using assms(5) by (simp add: newline_def isWhiteSpace_def)
  from tail_matches [OF w] obtain p1 p2 where
    t: "matchItems ?tail (?w @ ''```'') = Some [p1, p2, ''```'']"
    by blast
  have lz: "matchItems (Lazy AnyChar # ?tail) (u @ ?w @ ''```'') = Some [u, p1, p2, ''```'']"
  proof (rule lazy_run)
    fix x1 x2 assume x: "u = x1 @ x2" "x2 \<noteq> []"
    with assms(3) have "\<not> isWhiteSpace (last x2)"
      by (simp add: isWhiteSpace_def)
    from tail_fails [OF x(2) this w] show "matchItems ?tail (x2 @ ?w @ ''```'') = None" .
  next
    show "matchItems ?tail (?w @ ''```'') = Some [p1, p2, ''```'']"
      by (rule t)
  qed
  let ?rest = "u @ ?w @ ''```''"
  have hd_rest: "hd ?rest = CHR ''{''" "?rest \<noteq> []"
    using assms(1,2) by simp_all
  have op: "matchItems (Opt (Exactly newline) # Lazy AnyChar # ?tail) ?rest
              = Some [ [], u, p1, p2, ''```'']"
    using opt_skip [of ?rest "Exactly newline" "Lazy AnyChar # ?tail"] lz hd_rest
    by (simp add: newline_def)
  have sp: "matchItems (Greedy Space # Opt (Exactly newline) # Lazy AnyChar # ?tail)
              (([newline] @ w1) @ ?rest) = Some [ [newline] @ w1, [], u, p1, p2, ''```'']"
  proof (rule greedy_run)
    show "list_all (in_class Space) ([newline] @ w1)"
      using assms(4) by (simp add: newline_def isWhiteSpace_def list_all_iff)
    show "?rest = [] \<or> \<not> in_class Space (hd ?rest)"
      using hd_rest by (simp add: isWhiteSpace_def)
    show "matchItems (Opt (Exactly newline) # Lazy AnyChar # ?tail) ?rest
            = Some [ [], u, p1, p2, ''```'']"
      by (rule op)
  qed
  let ?rest2 = "([newline] @ w1) @ ?rest"
  have wd: "matchItems (Greedy Word # Greedy Space # Opt (Exactly newline) # Lazy AnyChar # ?tail)
              (''json'' @ ?rest2) = Some [''json'', [newline] @ w1, [], u, p1, p2, ''```'']"
  proof (rule greedy_run)
    show "list_all (in_class Word) ''json''"
      by (simp add: isWordChar_def)
    show "?rest2 = [] \<or> \<not> in_class Word (hd ?rest2)"
      by (simp add: isWordChar_def newline_def)
    show "matchItems (Greedy Space # Opt (Exactly newline) # Lazy AnyChar # ?tail) ?rest2
            = Some [ [newline] @ w1, [], u, p1, p2, ''```'']"
      by (rule sp)
  qed
  have "fenced (w1 @ u @ w2) = ''```'' @ ''json'' @ ?rest2"
    by (simp add: fenced_def)
  moreover have "matchItems fenceRegex (''```'' @ ''json'' @ ?rest2)
     = Some [''```'', ''json'', [newline] @ w1, [], u, p1, p2, ''```'']"
    unfolding fenceRegex_def matchItems_Lit using wd by simp
  ultimately show ?thesis
    by (simp add: match_fence_def)
qed

lemma trim_fenced: "trim (fenced t) = fenced t"
proof (rule trim_fixed)
  show "fenced t \<noteq> []" by (simp add: fenced_def)
  show "\<not> isWhiteSpace (hd (fenced t))" by (simp add: fenced_def isWhiteSpace_def)
  show "\<not> isWhiteSpace (last (fenced t))" by (simp add: fenced_def isWhiteSpace_def)
qed

lemma object_text_trim:
  assumes "object_text t"
  shows "trim t \<noteq> []" "hd (trim t) = CHR ''{''" "last (trim t) = CHR ''}''"
  using assms by (auto simp: object_text_def split: list.splits)

lemma sanitize_fenced:
  assumes "object_text t"
  shows "sanitize (fenced t) = trim t"
proof -
  note u = object_text_trim [OF assms]
  from trim_split [of t] obtain w1 w2 where
    t: "t = w1 @ trim t @ w2" "list_all isWhiteSpace w1" "list_all isWhiteSpace w2"
    by blast
  from match_fence_fenced [OF u t(2,3)] t(1)
  have m: "match_fence (fenced t) = Some (trim t)"
    by simp
  have "trim (trim t) = trim t"
    using u by (intro trim_fixed) (simp_all add: isWhiteSpace_def)
  with m u(1) show ?thesis
    by (simp add: sanitize_def trim_fenced)
qed

lemma sanitize_bare:
  assumes "object_text t"
  shows "sanitize t = trim t"
proof -
  note u = object_text_trim [OF assms]
  then obtain cs where "trim t = CHR ''{'' # cs"
    by (cases "trim t") auto
  then have "match_fence (trim t) = None"
    by (simp add: match_fence_def fenceRegex_def)
  then show ?thesis
    by (simp add: sanitize_def)
qed


lemma sanitize_samples:
  "sanitize (fenced sample_text) = sample_text"
  "sanitize sample_text = sample_text"
  "sanitize no_sentiment_text = no_sentiment_text"
  "sanitize loose_text = loose_text"
  "sanitize ''not json'' = ''not json''"
  by (simp_all add: sanitize_def fenced_def trim_def match_fence_def fenceRegex_def
      isWhiteSpace_def isWordChar_def newline_def sample_text_def no_sentiment_text_def
      loose_text_def)

lemma sample_parse_values:
  "sample_parse sample_text = Inr sample_result"
  "sample_parse loose_text = Inr (JObj loose_fields)"
  "sample_parse no_sentiment_text = Inr no_sentiment_result"
  "sample_parse ''not json'' = Inl (ErrorObj ''Unexpected token'')"
  by (simp_all add: sample_parse_def sample_text_def loose_text_def no_sentiment_text_def)

subsection \<open>Fences\<close>

text \<open>
  C4: for every text \<open>t\<close> of a JSON object, the response that puts \<open>t\<close> between
  \<^verbatim>\<open>```json\<close> and \<^verbatim>\<open>```\<close>, each on a line of its own, and the response \<open>t\<close> itself give
  the same outcome of \<open>getSpeechAnalysis\<close>, whatever the parser does: both hand it
  \<open>trim t\<close>.
\<close>

theorem fence_stripping_same_parse:
  assumes "object_text t"
  shows "sanitize (fenced t) = sanitize t
       \<and> getSpeechAnalysis JSON_parse (Inr (fenced t)) = getSpeechAnalysis JSON_parse (Inr t)"
  using sanitize_fenced [OF assms] sanitize_bare [OF assms]
  by (simp add: getSpeechAnalysis_def try_block_def)

theorem fence_stripping_same_parse_witness:
  "object_text padded_text
   \<and> getSpeechAnalysis sample_parse (Inr (fenced padded_text))
       = getSpeechAnalysis sample_parse (Inr padded_text)
   \<and> getSpeechAnalysis sample_parse (Inr padded_text) = Inr sample_result"
proof -
  have o: "object_text padded_text"
    by (simp add: object_text_def padded_text_def trim_def isWhiteSpace_def newline_def
        sample_text_def)
  have "sanitize padded_text = sample_text"
    by (simp add: sanitize_def padded_text_def trim_def isWhiteSpace_def newline_def
        match_fence_def fenceRegex_def sample_text_def)
  then have "getSpeechAnalysis sample_parse (Inr padded_text) = Inr sample_result"
    by (simp add: getSpeechAnalysis_def try_block_def sample_parse_values
        validation_rejects_def sample_result_def)
  with o fence_stripping_same_parse [OF o, of sample_parse] show ?thesis
    by simp
qed

subsection \<open>Validation\<close>

lemma truthy_present: "truthy v \<Longrightarrow> v \<noteq> JUndefined \<and> v \<noteq> JStr []"
  by (cases v) auto

lemma isArray_iff: "isArray v \<longleftrightarrow> (\<exists>xs. v = JArr xs)"
  by (cases v) auto

lemma getProp_field:
  "getProp v k = Inr x \<Longrightarrow> x = field v k"
  by (cases v) (auto simp: field_def split: option.splits)

lemma validation_accepts_stated:
  assumes "validation_rejects d = Inr False"
  shows "stated_checks d"
proof -
  from assms obtain t su g se where
    r: "getProp d ''transcript'' = Inr t" "truthy t"
       "getProp d ''summary'' = Inr su" "truthy su"
       "getProp d ''grammarAnalysis'' = Inr g" "isArray g"
       "getProp d ''sentiment'' = Inr se" "truthy se"
    by (auto simp: validation_rejects_def split: sum.splits if_splits)
  from r(1,3,5,7) have "t = field d ''transcript''" "su = field d ''summary''"
    "g = field d ''grammarAnalysis''" "se = field d ''sentiment''"
    by (simp_all add: getProp_field)
  with r(2,4,6,8) show ?thesis
    using truthy_present by (auto simp: stated_checks_def)
qed

lemma validation_rejects_total:
  assumes "d \<noteq> JNull" and "d \<noteq> JUndefined"
  shows "\<exists>b. validation_rejects d = Inr b"
  using assms by (cases d) (auto simp: validation_rejects_def)

lemma catch_block_Error: "\<exists>m. catch_block e = ErrorObj m"
  by (cases e) auto

lemma getSpeechAnalysis_Inr:
  "getSpeechAnalysis P (Inr text) = Inr v
     \<longleftrightarrow> P (sanitize text) = Inr v \<and> validation_rejects v = Inr False"
  by (auto simp: getSpeechAnalysis_def try_block_def split: sum.splits bool.splits)


text \<open>
  C3: for every response text and every parser, \<open>getSpeechAnalysis\<close> returns a value only
  when it is the value parsed from the sanitized text, unchanged, and that value has a
  non-empty transcript, a non-empty summary, an array as \<open>grammarAnalysis\<close> and a
  sentiment. When the parser throws, and when the parsed value fails one of these checks,
  the promise rejects with an \<open>Error\<close>; for a parsed value other than \<open>null\<close> the
  message is that of the incomplete or malformed data, wrapped by the \<open>catch\<close> block.
\<close>

theorem getSpeechAnalysis_returns_only_validated:
  "(\<forall>v. getSpeechAnalysis JSON_parse (Inr text) = Inr v
        \<longrightarrow> JSON_parse (sanitize text) = Inr v \<and> stated_checks v)
   \<and> (\<forall>e. JSON_parse (sanitize text) = Inl e
        \<longrightarrow> getSpeechAnalysis JSON_parse (Inr text) = Inl (catch_block e))
   \<and> (\<forall>d. JSON_parse (sanitize text) = Inr d \<and> \<not> stated_checks d
        \<longrightarrow> (\<exists>m. getSpeechAnalysis JSON_parse (Inr text) = Inl (ErrorObj m)))
   \<and> (\<forall>d. JSON_parse (sanitize text) = Inr d \<and> \<not> stated_checks d
            \<and> d \<noteq> JNull \<and> d \<noteq> JUndefined
        \<longrightarrow> getSpeechAnalysis JSON_parse (Inr text)
              = Inl (catch_block (ErrorObj malformed_message)))"
proof (intro conjI allI impI)
  fix v assume "getSpeechAnalysis JSON_parse (Inr text) = Inr v"
  then have "JSON_parse (sanitize text) = Inr v" "validation_rejects v = Inr False"
    by (simp_all add: getSpeechAnalysis_Inr)
  then show "JSON_parse (sanitize text) = Inr v" "stated_checks v"
    by (simp_all add: validation_accepts_stated)
next
  fix e assume "JSON_parse (sanitize text) = Inl e"
  then show "getSpeechAnalysis JSON_parse (Inr text) = Inl (catch_block e)"
    by (simp add: getSpeechAnalysis_def try_block_def)
next
  fix d assume d: "JSON_parse (sanitize text) = Inr d \<and> \<not> stated_checks d"
  then have "getSpeechAnalysis JSON_parse (Inr text) \<noteq> Inr d"
    using validation_accepts_stated by (auto simp: getSpeechAnalysis_Inr)
  moreover have "getSpeechAnalysis JSON_parse (Inr text) \<noteq> Inr v" if "v \<noteq> d" for v
    using d that by (simp add: getSpeechAnalysis_Inr)
  ultimately obtain e where "getSpeechAnalysis JSON_parse (Inr text) = Inl e"
    by (cases "getSpeechAnalysis JSON_parse (Inr text)") auto
  moreover from this obtain e' where "e = catch_block e'"
    by (auto simp: getSpeechAnalysis_def split: sum.splits)
  ultimately show "\<exists>m. getSpeechAnalysis JSON_parse (Inr text) = Inl (ErrorObj m)"
    using catch_block_Error [of e'] by auto
next
  fix d assume d: "JSON_parse (sanitize text) = Inr d \<and> \<not> stated_checks d
            \<and> d \<noteq> JNull \<and> d \<noteq> JUndefined"
  then obtain b where b: "validation_rejects d = Inr b"
    using validation_rejects_total by blast
  with d have "b"
    using validation_accepts_stated by (cases b) auto
  with b d show "getSpeechAnalysis JSON_parse (Inr text)
                   = Inl (catch_block (ErrorObj malformed_message))"
    by (simp add: getSpeechAnalysis_def try_block_def)
qed


theorem getSpeechAnalysis_returns_only_validated_witness:
  "getSpeechAnalysis sample_parse (Inr (fenced sample_text)) = Inr sample_result
   \<and> stated_checks sample_result
   \<and> sample_parse (sanitize ''not json'') = Inl (ErrorObj ''Unexpected token'')
   \<and> getSpeechAnalysis sample_parse (Inr ''not json'')
       = Inl (ErrorObj (''Gemini API Error: Unexpected token''
                        @ ''. Please check your API key and network connection.''))
   \<and> sample_parse (sanitize no_sentiment_text) = Inr no_sentiment_result
   \<and> \<not> stated_checks no_sentiment_result
   \<and> getSpeechAnalysis sample_parse (Inr no_sentiment_text)
       = Inl (ErrorObj (''Gemini API Error: API returned incomplete or malformed JSON data.''
                        @ ''. Please check your API key and network connection.''))"
proof -
  note c3 = getSpeechAnalysis_returns_only_validated
  have ok: "getSpeechAnalysis sample_parse (Inr (fenced sample_text)) = Inr sample_result"
    by (simp add: getSpeechAnalysis_def try_block_def sanitize_samples sample_parse_values
        validation_rejects_def sample_result_def)
  with c3 [of sample_parse "fenced sample_text"] have chk: "stated_checks sample_result"
    by blast
  have bad: "sample_parse (sanitize ''not json'') = Inl (ErrorObj ''Unexpected token'')"
    by (simp add: sanitize_samples sample_parse_values)
  with c3 [of sample_parse "''not json''"]
  have rej: "getSpeechAnalysis sample_parse (Inr ''not json'')
               = Inl (catch_block (ErrorObj ''Unexpected token''))"
    by blast
  have mis: "sample_parse (sanitize no_sentiment_text) = Inr no_sentiment_result"
    by (simp add: sanitize_samples sample_parse_values)
  have nchk: "\<not> stated_checks no_sentiment_result"
    by (simp add: stated_checks_def field_def no_sentiment_result_def)
  have msg: "getSpeechAnalysis sample_parse (Inr no_sentiment_text)
       = Inl (ErrorObj (''Gemini API Error: API returned incomplete or malformed JSON data.''
                        @ ''. Please check your API key and network connection.''))"
  proof -
    have "no_sentiment_result \<noteq> JNull" "no_sentiment_result \<noteq> JUndefined"
      by (simp_all add: no_sentiment_result_def)
    with c3 [of sample_parse no_sentiment_text] mis nchk
    have "getSpeechAnalysis sample_parse (Inr no_sentiment_text)
            = Inl (catch_block (ErrorObj malformed_message))"
      by blast
    then show ?thesis
      by (simp add: malformed_message_def)
  qed
  from ok chk bad rej mis nchk msg show ?thesis
    by simp
qed

text \<open>
  C9: the validation reads neither \<open>sentiment.label\<close> nor the elements of
  \<open>grammarAnalysis\<close>. Whenever the parsed object has a truthy transcript, summary and
  sentiment and an array as \<open>grammarAnalysis\<close>, \<open>getSpeechAnalysis\<close> returns it, whatever
  the sentiment and the elements of the array are; so it does for a label outside the four
  of \<open>types.ts\<close> and for an element with none of the four fields of a \<open>GrammarIssue\<close>.
\<close>

theorem validation_ignores_label_and_issue_fields:
  assumes "JSON_parse (sanitize text) = Inr (JObj ps)"
    and "map_of ps ''transcript'' = Some t" and "truthy t"
    and "map_of ps ''summary'' = Some su" and "truthy su"
    and "map_of ps ''grammarAnalysis'' = Some (JArr issues)"
    and "map_of ps ''sentiment'' = Some se" and "truthy se"
  shows "getSpeechAnalysis JSON_parse (Inr text) = Inr (JObj ps)"
  using assms by (simp add: getSpeechAnalysis_Inr validation_rejects_def)


theorem validation_ignores_label_and_issue_fields_witness:
  "sample_parse (sanitize loose_text) = Inr (JObj loose_fields)
   \<and> map_of loose_fields ''transcript'' = Some (JStr ''hi'') \<and> truthy (JStr ''hi'')
   \<and> map_of loose_fields ''summary'' = Some (JStr ''s'') \<and> truthy (JStr ''s'')
   \<and> map_of loose_fields ''grammarAnalysis'' = Some (JArr [JObj [(''note'', JStr ''x'')]])
   \<and> map_of loose_fields ''sentiment'' = Some (JObj [(''label'', JStr ''Furious'')])
   \<and> truthy (JObj [(''label'', JStr ''Furious'')])
   \<and> \<not> is_Sentiment (JObj [(''label'', JStr ''Furious'')])
   \<and> \<not> is_GrammarIssue (JObj [(''note'', JStr ''x'')])
   \<and> getSpeechAnalysis sample_parse (Inr loose_text) = Inr (JObj loose_fields)"
proof -
  have p: "sample_parse (sanitize loose_text) = Inr (JObj loose_fields)"
    by (simp add: sanitize_samples sample_parse_values)
  have t: "map_of loose_fields ''transcript'' = Some (JStr ''hi'')"
    and su: "map_of loose_fields ''summary'' = Some (JStr ''s'')"
    and g: "map_of loose_fields ''grammarAnalysis'' = Some (JArr [JObj [(''note'', JStr ''x'')]])"
    and se: "map_of loose_fields ''sentiment'' = Some (JObj [(''label'', JStr ''Furious'')])"
    by (simp_all add: loose_fields_def)
  have tt: "truthy (JStr ''hi'')" and ts: "truthy (JStr ''s'')"
    and tse: "truthy (JObj [(''label'', JStr ''Furious'')])"
    by simp_all
  have ns: "\<not> is_Sentiment (JObj [(''label'', JStr ''Furious'')])"
    by (simp add: is_Sentiment_def field_def)
  have ng: "\<not> is_GrammarIssue (JObj [(''note'', JStr ''x'')])"
    by (simp add: is_GrammarIssue_def field_def)
  from validation_ignores_label_and_issue_fields
         [of sample_parse loose_text loose_fields, OF p t tt su ts g se tse]
  have "getSpeechAnalysis sample_parse (Inr loose_text) = Inr (JObj loose_fields)" .
  with p t su g se tt ts tse ns ng show ?thesis
    by simp
qed

section \<open>The audio capture adapter\<close>

lemma cleanupRecording_fields:
  "streamRef (cleanupRecording u) = None"
  "mediaRecorderRef (cleanupRecording u) = None"
  "audioChunksRef (cleanupRecording u) = []"
  "recordingIntervalRef (cleanupRecording u)
     = (if recordingIntervalRef u = Some 0 then Some 0 else None)"
  "activeTimers (cleanupRecording u)
     = (case recordingIntervalRef u of
          Some i \<Rightarrow> if i \<noteq> 0 then activeTimers u - {i} else activeTimers u
        | None \<Rightarrow> activeTimers u)"
  "liveTracks (cleanupRecording u)
     = (case streamRef u of
          Some st \<Rightarrow> liveTracks u - set (tracks st)
        | None \<Rightarrow> liveTracks u)"
  "isRecording (cleanupRecording u) = isRecording u"
  by (simp_all add: cleanupRecording_def Let_def split: option.splits)

lemma recording_uploader_value:
  "recording_uploader =
     \<lparr>mediaRecorderRef = Some \<lparr>mimeType = ''audio/ogg''\<rparr>, streamRef = Some \<lparr>tracks = [7]\<rparr>,
      audioChunksRef = [], recordingIntervalRef = Some 3, isRecording = True,
      recordingSeconds = 0, micError = None, liveTracks = {7}, activeTimers = {3}\<rparr>"
  by (simp add: recording_uploader_def handleStartRecording_def handleStartRecording_begin_def
      handleStartRecording_resume_def initial_uploader_def)

subsection \<open>Leaving a session\<close>

text \<open>
  C8: the \<open>onstop\<close> handler hands over a file whose type is the type the recorder
  negotiated, or \<open>audio/webm\<close> when there is no recorder or its type is empty, and whose
  bytes are the chunks in order, none when no chunk was buffered. On the normal stop, on a
  failure inside the \<open>try\<close> of \<open>handleStartRecording\<close> and on unmount, the stream ref, the
  recorder ref and the timer ref are null afterwards, no track of the stream the session
  held is live, its timer is not running and the chunk buffer is empty. The handle of a
  timer is positive, as the platform hands it out.
\<close>

theorem every_exit_releases_the_session:
  assumes "\<forall>i. recordingIntervalRef u = Some i \<longrightarrow> 0 < i"
    and "case path of StartFailure env \<Rightarrow> is_failure env | _ \<Rightarrow> True"
  shows "fst (onstop stamp (handleStopRecording u))
           = \<lparr>fname = ''recording-'' @ stamp @ ''.webm'',
              ftype = (case mediaRecorderRef u of
                         Some r \<Rightarrow> if mimeType r = [] then ''audio/webm'' else mimeType r
                       | None \<Rightarrow> ''audio/webm''),
              fdata = concat (audioChunksRef u)\<rparr>
       \<and> streamRef (exit_state path u) = None
       \<and> (\<forall>st. held_stream path u = Some st
              \<longrightarrow> set (tracks st) \<inter> liveTracks (exit_state path u) = {})
       \<and> recordingIntervalRef (exit_state path u) = None
       \<and> (\<forall>i. recordingIntervalRef u = Some i \<longrightarrow> i \<notin> activeTimers (exit_state path u))
       \<and> audioChunksRef (exit_state path u) = []
       \<and> mediaRecorderRef (exit_state path u) = None"
proof -
  have handed: "fst (onstop stamp (handleStopRecording u))
           = \<lparr>fname = ''recording-'' @ stamp @ ''.webm'',
              ftype = (case mediaRecorderRef u of
                         Some r \<Rightarrow> if mimeType r = [] then ''audio/webm'' else mimeType r
                       | None \<Rightarrow> ''audio/webm''),
              fdata = concat (audioChunksRef u)\<rparr>"
    by (simp add: onstop_def handleStopRecording_def Let_def split: option.splits)
  have rest: "streamRef (exit_state path u) = None
       \<and> (\<forall>st. held_stream path u = Some st
              \<longrightarrow> set (tracks st) \<inter> liveTracks (exit_state path u) = {})
       \<and> recordingIntervalRef (exit_state path u) = None
       \<and> (\<forall>i. recordingIntervalRef u = Some i \<longrightarrow> i \<notin> activeTimers (exit_state path u))
       \<and> audioChunksRef (exit_state path u) = []
       \<and> mediaRecorderRef (exit_state path u) = None"
  proof (cases path)
    case (NormalStop stamp')
    with assms(1) show ?thesis
      by (auto simp: onstop_def handleStopRecording_def Let_def cleanupRecording_fields
               split: option.splits)
  next
    case (StartFailure env)
    with assms(2) have "is_failure env"
      by simp
    with StartFailure assms(1) show ?thesis
      by (cases env)
         (auto simp: handleStartRecording_def handleStartRecording_begin_def
               handleStartRecording_resume_def Let_def cleanupRecording_fields
               split: option.splits)
  next
    case Teardown
    with assms(1) show ?thesis
      by (auto simp: cleanupRecording_fields split: option.splits)
  qed
  from handed rest show ?thesis
    by blast
qed

theorem every_exit_releases_the_session_witness:
  "recordingIntervalRef recording_uploader = Some 3 \<and> (0 :: nat) < 3
   \<and> fst (onstop ''2025-01-01T00:00:00.000Z'' (handleStopRecording recording_uploader))
       = \<lparr>fname = ''recording-2025-01-01T00:00:00.000Z.webm'', ftype = ''audio/ogg'',
          fdata = []\<rparr>
   \<and> held_stream (NormalStop ''2025-01-01T00:00:00.000Z'') recording_uploader
       = Some \<lparr>tracks = [7]\<rparr>
   \<and> liveTracks recording_uploader = {7}
   \<and> activeTimers recording_uploader = {3}
   \<and> set [7] \<inter> liveTracks (exit_state (NormalStop ''2025-01-01T00:00:00.000Z'') recording_uploader)
       = {}
   \<and> 3 \<notin> activeTimers (exit_state (NormalStop ''2025-01-01T00:00:00.000Z'') recording_uploader)
   \<and> streamRef (exit_state (NormalStop ''2025-01-01T00:00:00.000Z'') recording_uploader) = None
   \<and> audioChunksRef (exit_state (NormalStop ''2025-01-01T00:00:00.000Z'') recording_uploader)
       = []"
proof -
  let ?p = "NormalStop ''2025-01-01T00:00:00.000Z''"
  have timer: "recordingIntervalRef recording_uploader = Some 3"
    by (simp add: recording_uploader_value)
  then have pos: "\<forall>i. recordingIntervalRef recording_uploader = Some i \<longrightarrow> 0 < i"
    by simp
  have path: "case ?p of StartFailure env \<Rightarrow> is_failure env | _ \<Rightarrow> True"
    by simp
  have held: "held_stream ?p recording_uploader = Some \<lparr>tracks = [7]\<rparr>"
    and rec: "mediaRecorderRef recording_uploader = Some \<lparr>mimeType = ''audio/ogg''\<rparr>"
    and chunks: "audioChunksRef recording_uploader = []"
    and live: "liveTracks recording_uploader = {7}"
    and timers: "activeTimers recording_uploader = {3}"
    by (simp_all add: recording_uploader_value)
  note released = every_exit_releases_the_session
         [OF pos path, of "''2025-01-01T00:00:00.000Z''"]
  from released rec chunks
  have f: "fst (onstop ''2025-01-01T00:00:00.000Z'' (handleStopRecording recording_uploader))
       = \<lparr>fname = ''recording-2025-01-01T00:00:00.000Z.webm'', ftype = ''audio/ogg'',
          fdata = []\<rparr>"
    by simp
  from released held
  have l: "set [7] \<inter> liveTracks (exit_state ?p recording_uploader) = {}"
    by simp
  from released timer
  have t: "3 \<notin> activeTimers (exit_state ?p recording_uploader)"
    by simp
  from released
  have s: "streamRef (exit_state ?p recording_uploader) = None"
    and c: "audioChunksRef (exit_state ?p recording_uploader) = []"
    by simp_all
  from timer held live timers f l t s c show ?thesis
    by simp
qed

subsection \<open>Starting while a session runs\<close>

text \<open>
  C5 (the code at the failing input): the start button is clicked twice before the first
  \<open>getUserMedia\<close> settles; \<open>isRecording\<close> is still false at the second click, so the view
  lets it through. The first request is granted and its session runs and buffers a chunk.
  Then the second request is granted: its continuation tests nothing, puts the new stream,
  recorder and timer in the refs and empties the buffer. Both tracks are live and both
  timers run, and no ref holds the first ones any more.
\<close>

theorem second_start_replaces_running_session:
  "recorder_run (recorder_view_admits False)
     [StartClick True, StartClick True,
      MediaSettles (Started \<lparr>tracks = [7]\<rparr> \<lparr>mimeType = ''audio/ogg''\<rparr> 3),
      DataAvailable ''abc''] initial_recorder_system
   = Some \<lparr>up = \<lparr>mediaRecorderRef = Some \<lparr>mimeType = ''audio/ogg''\<rparr>,
                  streamRef = Some \<lparr>tracks = [7]\<rparr>, audioChunksRef = [''abc''],
                  recordingIntervalRef = Some 3, isRecording = True, recordingSeconds = 0,
                  micError = None, liveTracks = {7}, activeTimers = {3}\<rparr>,
           requests = 1\<rparr>
   \<and> recorder_run (recorder_view_admits False)
     [StartClick True, StartClick True,
      MediaSettles (Started \<lparr>tracks = [7]\<rparr> \<lparr>mimeType = ''audio/ogg''\<rparr> 3),
      DataAvailable ''abc'',
      MediaSettles (Started \<lparr>tracks = [8]\<rparr> \<lparr>mimeType = ''audio/mp4''\<rparr> 4)]
     initial_recorder_system
   = Some \<lparr>up = \<lparr>mediaRecorderRef = Some \<lparr>mimeType = ''audio/mp4''\<rparr>,
                  streamRef = Some \<lparr>tracks = [8]\<rparr>, audioChunksRef = [],
                  recordingIntervalRef = Some 4, isRecording = True, recordingSeconds = 0,
                  micError = None, liveTracks = {7, 8}, activeTimers = {3, 4}\<rparr>,
           requests = 0\<rparr>"
  by (auto simp: recorder_view_admits_def renderRecorder_def initial_recorder_system_def
      initial_uploader_def handleStartRecording_begin_def handleStartRecording_resume_def
      ondataavailable_def)

end
